theory Spec2Isabelle
  imports Complex_Main "HOL-Library.Multiset" "HOL-Library.Sublist"
begin

section \<open>The AI context server: scanner, search and history\<close>

text \<open>
  A shallow embedding of \<^verbatim>\<open>ai-context-server.py\<close>. A Python string is the list of its code
  points, each the integer that \<^verbatim>\<open>ord\<close> gives; a lone surrogate (U+DC80..U+DCFF), which is
  how Python keeps a byte of a file name that is not valid UTF-8, is a code point like any
  other. A byte string is a list of integers from 0 to 255. A float is the real number it
  denotes, or an infinity; the two float operations of the source that round are modelled
  with their rounding. What the server finds outside itself (the walk of the tree, the
  content of the files, the clock) is an input of the model, and so are the two library
  functions \<^verbatim>\<open>hashlib.md5(..).hexdigest()\<close> and \<^verbatim>\<open>str.lower()\<close>.
\<close>

subsection \<open>Strings\<close>

type_synonym str = "int list"

type_synonym bytes = "int list"

text \<open>A string literal of the source, all of whose characters are ASCII.\<close>

definition ascii :: "string \<Rightarrow> str" where
  "ascii s = map of_char s"

record python =
  md5 :: "bytes \<Rightarrow> str"
  lower :: "str \<Rightarrow> str"

text \<open>The exceptions of the model. \<open>Inl e\<close> of a result type is the exception \<open>e\<close> raised.\<close>

datatype exception =
  UnicodeDecodeError | UnicodeEncodeError | FileNotFoundError | PermissionError |
  IsADirectoryError | OverflowError

text \<open>
  \<^verbatim>\<open>str.encode()\<close>, the UTF-8 encoding: it raises \<^verbatim>\<open>UnicodeEncodeError\<close> on a string that
  holds a surrogate.
\<close>

definition utf8 :: "int \<Rightarrow> bytes" where
  "utf8 c =
     (if c < 0x80 then [c]
      else if c < 0x800 then [0xC0 + c div 0x40, 0x80 + c mod 0x40]
      else if c < 0x10000
        then [0xE0 + c div 0x1000, 0x80 + c div 0x40 mod 0x40, 0x80 + c mod 0x40]
      else [0xF0 + c div 0x40000, 0x80 + c div 0x1000 mod 0x40, 0x80 + c div 0x40 mod 0x40,
            0x80 + c mod 0x40])"

definition is_surrogate :: "int \<Rightarrow> bool" where
  "is_surrogate c = (0xD800 \<le> c \<and> c \<le> 0xDFFF)"

definition encode :: "str \<Rightarrow> exception + bytes" where
  "encode s = (if list_ex is_surrogate s then Inl UnicodeEncodeError else Inr (concat (map utf8 s)))"

text \<open>\<^verbatim>\<open>str.isspace()\<close> of one character, as \<^verbatim>\<open>str.strip()\<close> uses it.\<close>

definition isspace :: "int \<Rightarrow> bool" where
  "isspace c =
     ((0x09 \<le> c \<and> c \<le> 0x0D) \<or> (0x1C \<le> c \<and> c \<le> 0x20) \<or> c = 0x85 \<or> c = 0xA0 \<or>
      c = 0x1680 \<or> (0x2000 \<le> c \<and> c \<le> 0x200A) \<or> c = 0x2028 \<or> c = 0x2029 \<or>
      c = 0x202F \<or> c = 0x205F \<or> c = 0x3000)"

definition strip :: "str \<Rightarrow> str" where
  "strip s = rev (dropWhile isspace (rev (dropWhile isspace s)))"

definition is_linebreak :: "int \<Rightarrow> bool" where
  "is_linebreak c =
     ((0x0A \<le> c \<and> c \<le> 0x0D) \<or> (0x1C \<le> c \<and> c \<le> 0x1E) \<or> c = 0x85 \<or>
      c = 0x2028 \<or> c = 0x2029)"

text \<open>
  \<^verbatim>\<open>str.splitlines()\<close>: the text is cut after every line boundary, the boundary is
  dropped, CR LF is one boundary, and there is no empty last line. The flag says that the
  previous character was a CR; \<open>cur\<close> is the line read so far.
\<close>

fun splitlines_from :: "bool \<Rightarrow> str \<Rightarrow> str \<Rightarrow> str list" where
  "splitlines_from after_cr cur [] = (if cur = [] then [] else [cur])"
| "splitlines_from after_cr cur (c # cs) =
     (if after_cr \<and> c = 0x0A then splitlines_from False cur cs
      else if is_linebreak c then cur # splitlines_from (c = 0x0D) [] cs
      else splitlines_from False (cur @ [c]) cs)"

definition splitlines :: "str \<Rightarrow> str list" where
  "splitlines s = splitlines_from False [] s"

text \<open>\<^verbatim>\<open>q in s\<close> on strings: \<open>q\<close> occurs in \<open>s\<close> as a contiguous substring.\<close>

fun contains :: "str \<Rightarrow> str \<Rightarrow> bool" where
  "contains [] q = (q = [])"
| "contains (c # cs) q = (prefix q (c # cs) \<or> contains cs q)"

fun join :: "str \<Rightarrow> str list \<Rightarrow> str" where
  "join sep [] = []"
| "join sep [x] = x"
| "join sep (x # y # ys) = x @ sep @ join sep (y # ys)"

text \<open>
  Python's slice \<^verbatim>\<open>xs[a:b]\<close> for integer bounds: a negative bound counts from the end,
  and both bounds are clipped to the list.
\<close>

definition slice_bound :: "nat \<Rightarrow> int \<Rightarrow> nat" where
  "slice_bound n a = (if a < 0 then nat (max 0 (int n + a)) else min n (nat a))"

definition slice :: "'a list \<Rightarrow> int \<Rightarrow> int \<Rightarrow> 'a list" where
  "slice xs a b = drop (slice_bound (length xs) a) (take (slice_bound (length xs) b) xs)"

subsection \<open>Paths\<close>

text \<open>
  A path is the list of its components, as \<^verbatim>\<open>Path.parts\<close> gives them: an absolute POSIX
  path starts with the component \<^verbatim>\<open>/\<close>.
\<close>

type_synonym path = "str list"

definition str_path :: "path \<Rightarrow> str" where
  "str_path p =
     (case p of
        [] \<Rightarrow> ascii ''.''
      | r # rest \<Rightarrow>
          if r = ascii ''/'' then ascii ''/'' @ join (ascii ''/'') rest
          else join (ascii ''/'') p)"

definition name :: "path \<Rightarrow> str" where
  "name p = (if p = [] \<or> p = [ascii ''/''] then [] else last p)"

text \<open>
  \<^verbatim>\<open>Path.suffix\<close>: with \<open>i\<close> the position of the last dot of the name, the suffix is
  \<^verbatim>\<open>name[i:]\<close> when \<^verbatim>\<open>0 < i < len(name) - 1\<close>, and empty otherwise.
\<close>

definition suffix_of :: "path \<Rightarrow> str" where
  "suffix_of p =
     (let nm = name p
      in if 0x2E \<notin> set nm then []
         else let i = length nm - length (takeWhile (\<lambda>c. c \<noteq> 0x2E) (rev nm)) - 1
              in if 0 < i \<and> i + 1 < length nm then drop i nm else [])"

text \<open>\<^verbatim>\<open>p.relative_to(proot)\<close> raises \<^verbatim>\<open>ValueError\<close> (here \<open>None\<close>) unless \<open>proot\<close> is a prefix of \<open>p\<close>.\<close>

definition relative_to :: "path \<Rightarrow> path \<Rightarrow> path option" where
  "relative_to p proot = (if prefix proot p then Some (drop (length proot) p) else None)"

subsection \<open>Data model\<close>

record FileInfo =
  path :: str
  file_size :: nat
  modified :: real
  content_hash :: str
  file_type :: str
  lines :: nat

record CodebaseSnapshot =
  timestamp :: real
  total_files :: nat
  total_lines :: nat
  file_types :: "str \<rightharpoonup> nat"
  files :: "FileInfo list"

subsection \<open>The file system seen by a scan\<close>

record stat_result =
  st_size :: nat
  st_mtime :: real

text \<open>
  One entry that \<^verbatim>\<open>project_root.rglob('*')\<close> yields: its components below the root, what
  \<^verbatim>\<open>is_file()\<close> answers or raises, what \<^verbatim>\<open>stat()\<close> answers (\<open>None\<close> when it raises) and what
  opening and reading the file as UTF-8 text gives. The walk of a scan is the list of
  these entries in the order \<^verbatim>\<open>rglob\<close> produces them. \<^verbatim>\<open>is_file()\<close> answers \<^verbatim>\<open>False\<close> for an
  entry that has vanished; another failure of the underlying \<^verbatim>\<open>stat\<close>, such as
  \<^verbatim>\<open>PermissionError\<close> below a directory that may be listed and not searched, is raised.
\<close>

record entry =
  rel_parts :: path
  is_file :: "exception + bool"
  stat :: "stat_result option"
  read_text :: "exception + str"

definition code_extensions :: "str \<rightharpoonup> str" where
  "code_extensions = map_of
     [(ascii ''.rs'', ascii ''rust''), (ascii ''.py'', ascii ''python''),
      (ascii ''.js'', ascii ''javascript''), (ascii ''.ts'', ascii ''typescript''),
      (ascii ''.proto'', ascii ''protobuf''), (ascii ''.sql'', ascii ''sql''),
      (ascii ''.toml'', ascii ''toml''), (ascii ''.yaml'', ascii ''yaml''),
      (ascii ''.yml'', ascii ''yaml''), (ascii ''.json'', ascii ''json''),
      (ascii ''.md'', ascii ''markdown''), (ascii ''.sh'', ascii ''shell''),
      (ascii ''.txt'', ascii ''text''), (ascii ''.lisp'', ascii ''lisp''),
      (ascii ''.cbu'', ascii ''cbu-dsl'')]"

definition ignore_dirs :: "str list" where
  "ignore_dirs =
     map ascii
       [''target'', ''.git'', ''node_modules'', ''.next'', ''dist'',
        ''build'', ''__pycache__'', ''.vscode'', ''.idea'', ''export'']"

text \<open>\<^verbatim>\<open>any(part in ignore_dirs for part in file_path.parts)\<close>\<close>

definition in_ignored_dir :: "path \<Rightarrow> bool" where
  "in_ignored_dir file_path = list_ex (\<lambda>part. part \<in> set ignore_dirs) file_path"

subsection \<open>The scanner\<close>

text \<open>
  The three accumulators of \<^verbatim>\<open>scan_codebase\<close>, in the order \<open>(files, file_types,
  total_lines)\<close>.
\<close>

type_synonym scan_acc = "FileInfo list \<times> (str \<rightharpoonup> nat) \<times> nat"

text \<open>
  The tail of the loop body, from \<^verbatim>\<open>file_type = code_extensions[ext]\<close> on. The counter of
  the category is raised before \<^verbatim>\<open>relative_to\<close> is called, so a \<^verbatim>\<open>ValueError\<close> there would
  be caught by the outer handler with the counters already changed.
\<close>

definition record_file ::
  "path \<Rightarrow> path \<Rightarrow> stat_result \<Rightarrow> str \<Rightarrow> str \<Rightarrow> nat \<Rightarrow> scan_acc \<Rightarrow> scan_acc" where
  "record_file proot file_path st ftype chash nlines acc =
     (case acc of (fs, ftypes, tlines) \<Rightarrow>
        (let ftypes' = ftypes(ftype \<mapsto> (case ftypes ftype of None \<Rightarrow> 0 | Some n \<Rightarrow> n) + 1)
         in (case relative_to file_path proot of
               None \<Rightarrow> (fs, ftypes', tlines)
             | Some rel \<Rightarrow>
                 (fs @ [\<lparr>path = str_path rel, file_size = st_size st, modified = st_mtime st,
                         content_hash = chash, file_type = ftype, lines = nlines\<rparr>],
                  ftypes', tlines))))"

text \<open>
  The body of \<^verbatim>\<open>if file_path.is_file():\<close>. Every exception raised in it is caught, by the
  handler of \<^verbatim>\<open>UnicodeDecodeError\<close> or by the outer handler, which goes on to the next entry:
  a failure of \<^verbatim>\<open>stat()\<close>, of opening or reading the file, and the \<^verbatim>\<open>UnicodeEncodeError\<close> of
  either call of \<^verbatim>\<open>encode()\<close>. All of them are raised before an accumulator has changed.
\<close>

definition scan_file :: "python \<Rightarrow> path \<Rightarrow> scan_acc \<Rightarrow> entry \<Rightarrow> scan_acc" where
  "scan_file py proot acc e =
     (let file_path = proot @ rel_parts e
      in (case code_extensions (lower py (suffix_of file_path)) of
            None \<Rightarrow> acc
          | Some ftype \<Rightarrow>
              (case stat e of
                 None \<Rightarrow> acc
               | Some st \<Rightarrow>
                   (case read_text e of
                      Inr content \<Rightarrow>
                        (case encode content of
                           Inl _ \<Rightarrow> acc
                         | Inr b \<Rightarrow>
                             (case acc of (fs, ftypes, tlines) \<Rightarrow>
                                (let nlines = length (splitlines content)
                                 in record_file proot file_path st ftype (md5 py b) nlines
                                      (fs, ftypes, tlines + nlines))))
                    | Inl UnicodeDecodeError \<Rightarrow>
                        (case encode (str_path file_path) of
                           Inl _ \<Rightarrow> acc
                         | Inr b \<Rightarrow> record_file proot file_path st ftype (md5 py b) 0 acc)
                    | Inl _ \<Rightarrow> acc))))"

text \<open>
  One iteration of \<^verbatim>\<open>for file_path in self.project_root.rglob('*')\<close>. The call of
  \<^verbatim>\<open>is_file()\<close> stands outside every \<^verbatim>\<open>try\<close>: an exception it raises leaves the scan.
\<close>

definition scan_entry :: "python \<Rightarrow> path \<Rightarrow> scan_acc \<Rightarrow> entry \<Rightarrow> exception + scan_acc" where
  "scan_entry py proot acc e =
     (if in_ignored_dir (proot @ rel_parts e) then Inr acc
      else (case is_file e of
              Inl x \<Rightarrow> Inl x
            | Inr b \<Rightarrow> if b then Inr (scan_file py proot acc e) else Inr acc))"

fun scan_loop :: "python \<Rightarrow> path \<Rightarrow> scan_acc \<Rightarrow> entry list \<Rightarrow> exception + scan_acc" where
  "scan_loop py proot acc [] = Inr acc"
| "scan_loop py proot acc (e # es) =
     (case scan_entry py proot acc e of
        Inl x \<Rightarrow> Inl x
      | Inr acc' \<Rightarrow> scan_loop py proot acc' es)"

text \<open>
  The snapshot that \<^verbatim>\<open>scan_codebase\<close> builds, or the exception that ends the walk; \<open>now\<close>
  is \<^verbatim>\<open>time.time()\<close> after the walk.
\<close>

definition scan :: "python \<Rightarrow> path \<Rightarrow> entry list \<Rightarrow> real \<Rightarrow> exception + CodebaseSnapshot" where
  "scan py proot walk now =
     (case scan_loop py proot ([], Map.empty, 0) walk of
        Inl x \<Rightarrow> Inl x
      | Inr (fs, ftypes, tlines) \<Rightarrow>
          Inr \<lparr>timestamp = now, total_files = length fs, total_lines = tlines,
               file_types = ftypes, files = fs\<rparr>)"

subsection \<open>The server's state\<close>

text \<open>
  One row of the table \<^verbatim>\<open>codebase_snapshots\<close>. The column \<^verbatim>\<open>file_types\<close> holds the JSON
  text of a dictionary; the model keeps the dictionary, and \<open>None\<close> stands for a column
  that is NULL or the empty text. The table \<^verbatim>\<open>file_snapshots\<close> is written by
  \<^verbatim>\<open>save_snapshot\<close> and read by nothing, and is left out.
\<close>

record history_row =
  row_timestamp :: real
  row_total_files :: nat
  row_total_lines :: nat
  row_file_types :: "(str \<rightharpoonup> nat) option"
  row_git_commit :: "str option"

record server =
  project_root :: path
  current_snapshot :: "CodebaseSnapshot option"
  codebase_snapshots :: "history_row list"

text \<open>
  What the server finds outside itself when it scans: the walk of the tree, the clock when
  the snapshot is built, the output of \<^verbatim>\<open>git rev-parse HEAD\<close>, and whether the database
  accepts the insertion.
\<close>

record world =
  rglob :: "entry list"
  clock :: real
  git_head :: "str option"
  db_ok :: bool

text \<open>
  \<^verbatim>\<open>save_snapshot\<close>: any exception is caught and logged, and the transaction is never
  committed, so the table keeps its rows.
\<close>

definition save_snapshot :: "world \<Rightarrow> CodebaseSnapshot \<Rightarrow> server \<Rightarrow> server" where
  "save_snapshot w snapshot srv =
     (if db_ok w
      then srv\<lparr>codebase_snapshots := codebase_snapshots srv @
             [\<lparr>row_timestamp = timestamp snapshot, row_total_files = total_files snapshot,
               row_total_lines = total_lines snapshot,
               row_file_types = Some (file_types snapshot),
               row_git_commit = git_head w\<rparr>]\<rparr>
      else srv)"

text \<open>
  \<^verbatim>\<open>scan_codebase\<close>: an exception that ends the walk leaves the method before
  \<^verbatim>\<open>self.current_snapshot\<close> is assigned, and the state is as it was.
\<close>

definition scan_codebase ::
  "python \<Rightarrow> world \<Rightarrow> server \<Rightarrow> exception + CodebaseSnapshot \<times> server" where
  "scan_codebase py w srv =
     (case scan py (project_root srv) (rglob w) (clock w) of
        Inl x \<Rightarrow> Inl x
      | Inr snapshot \<Rightarrow>
          Inr (snapshot, save_snapshot w snapshot (srv\<lparr>current_snapshot := Some snapshot\<rparr>)))"

text \<open>
  \<^verbatim>\<open>if not self.current_snapshot: self.scan_codebase()\<close>, followed by a read of
  \<^verbatim>\<open>self.current_snapshot\<close>.
\<close>

definition ensure_snapshot ::
  "python \<Rightarrow> world \<Rightarrow> server \<Rightarrow> exception + CodebaseSnapshot \<times> server" where
  "ensure_snapshot py w srv =
     (case current_snapshot srv of
        None \<Rightarrow> scan_codebase py w srv
      | Some snapshot \<Rightarrow> Inr (snapshot, srv))"

subsection \<open>Search\<close>

record SearchMatch =
  line_number :: int
  content :: str
  context_before :: "str list"
  context_after :: "str list"

record FileResult =
  result_file :: str
  result_file_type :: str
  matches :: "SearchMatch list"

record SearchResponse =
  query :: str
  results :: "FileResult list"
  total_files_searched :: nat
  files_with_matches :: nat

datatype http_error = BadRequest | ServerError exception

text \<open>The dictionary built for line \<open>i\<close> (counted from 0) of \<open>lns\<close>.\<close>

definition match_at :: "str list \<Rightarrow> int \<Rightarrow> SearchMatch" where
  "match_at lns i =
     \<lparr>line_number = i + 1,
      content = strip (lns ! nat i),
      context_before = (if i > 1 then slice lns (max 0 (i - 2)) i else []),
      context_after =
        (if i < int (length lns) - 1
         then slice lns (i + 1) (min (int (length lns)) (i + 3)) else [])\<rparr>"

text \<open>\<^verbatim>\<open>for i, line in enumerate(lines)\<close>, collecting the lines that hold the query.\<close>

definition matching_lines :: "python \<Rightarrow> bool \<Rightarrow> str \<Rightarrow> str list \<Rightarrow> SearchMatch list" where
  "matching_lines py case_sensitive search_query lns =
     [match_at lns (int k).
        k \<leftarrow> [0..<length lns],
        contains (if case_sensitive then lns ! k else lower py (lns ! k)) search_query]"

text \<open>What one readable file adds to \<^verbatim>\<open>results\<close>: one entry, or nothing.\<close>

definition search_file :: "python \<Rightarrow> bool \<Rightarrow> str \<Rightarrow> FileInfo \<Rightarrow> str \<Rightarrow> FileResult list" where
  "search_file py case_sensitive search_query file_info text =
     (if contains (if case_sensitive then text else lower py text) search_query
      then let matching = matching_lines py case_sensitive search_query (splitlines text)
           in if matching \<noteq> []
              then [\<lparr>result_file = path file_info, result_file_type = file_type file_info,
                      matches = take 10 matching\<rparr>]
              else []
      else [])"

text \<open>\<^verbatim>\<open>if file_type and file_info.file_type != file_type: continue\<close>\<close>

definition filtered_out :: "str option \<Rightarrow> FileInfo \<Rightarrow> bool" where
  "filtered_out type_arg file_info =
     (case type_arg of
        None \<Rightarrow> False
      | Some t \<Rightarrow> t \<noteq> [] \<and> file_type file_info \<noteq> t)"

text \<open>
  The loop over \<^verbatim>\<open>self.current_snapshot.files\<close>. \<open>disk\<close> gives, for the path of a record,
  what opening and reading \<^verbatim>\<open>project_root / path\<close> as UTF-8 text gives at the time of the
  search. Only \<^verbatim>\<open>UnicodeDecodeError\<close> and \<^verbatim>\<open>FileNotFoundError\<close> are caught.
\<close>

fun search_loop ::
  "python \<Rightarrow> (str \<Rightarrow> exception + str) \<Rightarrow> str option \<Rightarrow> bool \<Rightarrow> str \<Rightarrow>
   FileInfo list \<Rightarrow> FileResult list \<Rightarrow> exception + FileResult list" where
  "search_loop py disk type_arg cs q [] res = Inr res"
| "search_loop py disk type_arg cs q (file_info # rest) res =
     (if filtered_out type_arg file_info then search_loop py disk type_arg cs q rest res
      else
        (case disk (path file_info) of
           Inr text \<Rightarrow>
             search_loop py disk type_arg cs q rest (res @ search_file py cs q file_info text)
         | Inl UnicodeDecodeError \<Rightarrow> search_loop py disk type_arg cs q rest res
         | Inl FileNotFoundError \<Rightarrow> search_loop py disk type_arg cs q rest res
         | Inl e \<Rightarrow> Inl e))"

text \<open>
  The handler of \<^verbatim>\<open>/api/codebase/search\<close>: \<open>q\<close> is the raw parameter \<^verbatim>\<open>q\<close>, \<open>type_arg\<close> the
  parameter \<^verbatim>\<open>type\<close> when present. An exception that leaves the handler, from the scan that
  builds the first snapshot or from the loop, is the error \<open>ServerError\<close>. The second
  component is the server's state afterwards.
\<close>

definition search_content ::
  "python \<Rightarrow> world \<Rightarrow> (str \<Rightarrow> exception + str) \<Rightarrow>
   str \<Rightarrow> str option \<Rightarrow> bool \<Rightarrow> server \<Rightarrow> (http_error + SearchResponse) \<times> server" where
  "search_content py w disk q type_arg case_sensitive srv =
     (let qry = strip q
      in if qry = [] then (Inl BadRequest, srv)
         else
           (case ensure_snapshot py w srv of
              Inl x \<Rightarrow> (Inl (ServerError x), srv)
            | Inr (snapshot, srv') \<Rightarrow>
                (let search_query = (if case_sensitive then qry else lower py qry)
                 in (case search_loop py disk type_arg case_sensitive search_query
                            (files snapshot) [] of
                       Inl e \<Rightarrow> (Inl (ServerError e), srv')
                     | Inr res \<Rightarrow>
                         (Inr \<lparr>query = qry, results = res,
                               total_files_searched = length (files snapshot),
                               files_with_matches = length res\<rparr>, srv')))))"

subsection \<open>Floats\<close>








subsection \<open>History\<close>







subsection \<open>Notions of the specification\<close>

text \<open>
  The histogram of a list: every value that occurs is mapped to the number of its
  occurrences, and no other value is a key.
\<close>

definition histogram :: "'a list \<Rightarrow> ('a \<rightharpoonup> nat)" where
  "histogram xs = (\<lambda>c. if c \<in> set xs then Some (count_list xs c) else None)"

text \<open>
  The segments of a path string are the pieces between its slashes, as
  \<^verbatim>\<open>s.split('/')\<close> gives them.
\<close>

fun split_from :: "int \<Rightarrow> str \<Rightarrow> str \<Rightarrow> str list" where
  "split_from sep cur [] = [cur]"
| "split_from sep cur (c # cs) =
     (if c = sep then cur # split_from sep [] cs else split_from sep (cur @ [c]) cs)"

definition segments :: "str \<Rightarrow> str list" where
  "segments p = split_from 0x2F [] p"

text \<open>
  What a scan reads of a file it tracks: the components of its path and the outcome of
  reading it. A tree is unchanged between two scans when both find the same tracked files
  with the same content; the scanner writes its own database into the tree, and the size
  and the modification time of that file change with every scan.
\<close>

definition source_of :: "entry \<Rightarrow> path \<times> (exception + str)" where
  "source_of e = (rel_parts e, read_text e)"

subsection \<open>The scan as a filter\<close>

text \<open>
  Auxiliary notions for the proofs. An entry \<open>aborts\<close> a scan when the scan calls
  \<^verbatim>\<open>is_file()\<close> on it and the call raises. \<open>file_record\<close> is the record that one iteration
  of the scanner's loop appends for an entry, \<open>None\<close> when the iteration appends nothing;
  an entry is \<open>tracked\<close> when there is such a record. \<open>add_file\<close> is the effect of
  appending a record on the three accumulators; \<open>snapshot_of\<close> is the snapshot determined
  by a list of records.
\<close>

definition aborts :: "path \<Rightarrow> entry \<Rightarrow> bool" where
  "aborts proot e = (if in_ignored_dir (proot @ rel_parts e) then False else isl (is_file e))"

definition file_record :: "python \<Rightarrow> path \<Rightarrow> entry \<Rightarrow> FileInfo option" where
  "file_record py proot e =
     (let file_path = proot @ rel_parts e
      in if in_ignored_dir file_path then None
         else if is_file e \<noteq> Inr True then None
         else
           (case code_extensions (lower py (suffix_of file_path)) of
              None \<Rightarrow> None
            | Some ftype \<Rightarrow>
                (case stat e of
                   None \<Rightarrow> None
                 | Some st \<Rightarrow>
                     (case read_text e of
                        Inr text \<Rightarrow>
                          (case encode text of
                             Inl _ \<Rightarrow> None
                           | Inr b \<Rightarrow>
                               Some \<lparr>path = str_path (rel_parts e), file_size = st_size st,
                                     modified = st_mtime st, content_hash = md5 py b,
                                     file_type = ftype, lines = length (splitlines text)\<rparr>)
                      | Inl UnicodeDecodeError \<Rightarrow>
                          (case encode (str_path file_path) of
                             Inl _ \<Rightarrow> None
                           | Inr b \<Rightarrow>
                               Some \<lparr>path = str_path (rel_parts e), file_size = st_size st,
                                     modified = st_mtime st, content_hash = md5 py b,
                                     file_type = ftype, lines = 0\<rparr>)
                      | Inl _ \<Rightarrow> None))))"

definition tracked :: "python \<Rightarrow> path \<Rightarrow> entry \<Rightarrow> bool" where
  "tracked py proot e = (file_record py proot e \<noteq> None)"

definition add_file :: "scan_acc \<Rightarrow> FileInfo \<Rightarrow> scan_acc" where
  "add_file acc f =
     (case acc of (fs, ftypes, tlines) \<Rightarrow>
        (fs @ [f],
         ftypes(file_type f \<mapsto> (case ftypes (file_type f) of None \<Rightarrow> 0 | Some n \<Rightarrow> n) + 1),
         tlines + lines f))"

definition snapshot_of :: "real \<Rightarrow> FileInfo list \<Rightarrow> CodebaseSnapshot" where
  "snapshot_of now fs =
     \<lparr>timestamp = now, total_files = length fs, total_lines = sum_list (map lines fs),
      file_types = histogram (map file_type fs), files = fs\<rparr>"

text \<open>
  The part of a record that does not depend on the size and the modification time of the
  file, and the same part computed from what the scan reads of a tracked file.
\<close>

definition summary :: "FileInfo \<Rightarrow> str \<times> str \<times> str \<times> nat" where
  "summary f = (path f, content_hash f, file_type f, lines f)"

definition summary_of :: "python \<Rightarrow> path \<Rightarrow> path \<times> (exception + str) \<Rightarrow> str \<times> str \<times> str \<times> nat" where
  "summary_of py proot src =
     (case src of (rel, rt) \<Rightarrow>
        (str_path rel,
         md5 py (projr (encode (case rt of Inr text \<Rightarrow> text | Inl _ \<Rightarrow> str_path (proot @ rel)))),
         the (code_extensions (lower py (suffix_of (proot @ rel)))),
         (case rt of Inr text \<Rightarrow> length (splitlines text) | Inl _ \<Rightarrow> 0)))"

subsection \<open>The search loop as a concatenation\<close>

text \<open>
  Auxiliary notion for the proofs: what a file of the snapshot contributes to the results
  of a search that runs to its end.
\<close>

definition search_hits ::
  "python \<Rightarrow> (str \<Rightarrow> exception + str) \<Rightarrow> str option \<Rightarrow> bool \<Rightarrow> str \<Rightarrow> FileInfo \<Rightarrow>
   FileResult list" where
  "search_hits py disk type_arg cs q file_info =
     (if filtered_out type_arg file_info then []
      else case disk (path file_info) of
             Inr text \<Rightarrow> search_file py cs q file_info text
           | Inl _ \<Rightarrow> [])"

subsection \<open>A small project\<close>

text \<open>
  A project at \<^verbatim>\<open>/srv/proj\<close>: a Python file of twenty lines with \<open>Q\<close> on lines 5 and 12, a
  text file of one line, the server's own database, a Python file below a directory
  \<^verbatim>\<open>node_modules\<close>, and a Markdown file that is not valid UTF-8. The stand-in for MD5 puts
  a tag before its argument; the stand-in for \<^verbatim>\<open>str.lower()\<close> maps the letters A to Z.
\<close>

definition demo_py :: python where
  "demo_py =
     \<lparr>md5 = (\<lambda>b. ascii ''md5:'' @ b),
      lower = map (\<lambda>c. if 0x41 \<le> c \<and> c \<le> 0x5A then c + 0x20 else c)\<rparr>"

definition demo_root :: path where
  "demo_root = map ascii [''/'', ''srv'', ''proj'']"

definition demo_lines :: "str list" where
  "demo_lines =
     map ascii
       [''l1'', ''l2'', ''l3'', ''l4'', ''x Q 5'', ''l6'', ''l7'', ''l8'', ''l9'', ''l10'',
        ''l11'', ''Q twelve'', ''l13'', ''l14'', ''l15'', ''l16'', ''l17'', ''l18'', ''l19'',
        ''l20'']"

definition demo_text :: str where
  "demo_text = join [0x0A] demo_lines"

definition demo_before :: "entry list" where
  "demo_before =
     [\<lparr>rel_parts = [ascii ''a.py''], is_file = Inr True,
       stat = Some \<lparr>st_size = 78, st_mtime = 100\<rparr>, read_text = Inr demo_text\<rparr>,
      \<lparr>rel_parts = [ascii ''notes.txt''], is_file = Inr True,
       stat = Some \<lparr>st_size = 6, st_mtime = 90\<rparr>, read_text = Inr (ascii ''Q here'')\<rparr>,
      \<lparr>rel_parts = [ascii ''.ai-context-cache.db''], is_file = Inr True,
       stat = Some \<lparr>st_size = 8192, st_mtime = 95\<rparr>, read_text = Inl UnicodeDecodeError\<rparr>,
      \<lparr>rel_parts = [ascii ''b''], is_file = Inr False,
       stat = Some \<lparr>st_size = 64, st_mtime = 100\<rparr>, read_text = Inl IsADirectoryError\<rparr>,
      \<lparr>rel_parts = [ascii ''b'', ascii ''node_modules''], is_file = Inr False,
       stat = Some \<lparr>st_size = 64, st_mtime = 100\<rparr>, read_text = Inl IsADirectoryError\<rparr>,
      \<lparr>rel_parts = [ascii ''b'', ascii ''node_modules'', ascii ''c.py''], is_file = Inr True,
       stat = Some \<lparr>st_size = 2, st_mtime = 100\<rparr>, read_text = Inr (ascii ''pq'')\<rparr>]"

definition demo_blob :: entry where
  "demo_blob =
     \<lparr>rel_parts = [ascii ''b'', ascii ''blob.MD''], is_file = Inr True,
      stat = Some \<lparr>st_size = 3, st_mtime = 101\<rparr>, read_text = Inl UnicodeDecodeError\<rparr>"

definition demo_walk :: "entry list" where
  "demo_walk = demo_before @ [demo_blob]"

text \<open>
  The walk of the next scan of the same project: the entries come in another order, the
  database has grown, and \<^verbatim>\<open>a.py\<close> has a new modification time and the same content.
\<close>

definition demo_walk_later :: "entry list" where
  "demo_walk_later =
     [demo_blob,
      \<lparr>rel_parts = [ascii ''b'', ascii ''node_modules'', ascii ''c.py''], is_file = Inr True,
       stat = Some \<lparr>st_size = 2, st_mtime = 100\<rparr>, read_text = Inr (ascii ''pq'')\<rparr>,
      \<lparr>rel_parts = [ascii ''b'', ascii ''node_modules''], is_file = Inr False,
       stat = Some \<lparr>st_size = 64, st_mtime = 100\<rparr>, read_text = Inl IsADirectoryError\<rparr>,
      \<lparr>rel_parts = [ascii ''b''], is_file = Inr False,
       stat = Some \<lparr>st_size = 64, st_mtime = 100\<rparr>, read_text = Inl IsADirectoryError\<rparr>,
      \<lparr>rel_parts = [ascii ''.ai-context-cache.db''], is_file = Inr True,
       stat = Some \<lparr>st_size = 12288, st_mtime = 130\<rparr>, read_text = Inl UnicodeDecodeError\<rparr>,
      \<lparr>rel_parts = [ascii ''notes.txt''], is_file = Inr True,
       stat = Some \<lparr>st_size = 6, st_mtime = 90\<rparr>, read_text = Inr (ascii ''Q here'')\<rparr>,
      \<lparr>rel_parts = [ascii ''a.py''], is_file = Inr True,
       stat = Some \<lparr>st_size = 78, st_mtime = 120\<rparr>, read_text = Inr demo_text\<rparr>]"

definition demo_files :: "FileInfo list" where
  "demo_files =
     [\<lparr>path = ascii ''a.py'', file_size = 78, modified = 100,
       content_hash = ascii ''md5:'' @ demo_text, file_type = ascii ''python'', lines = 20\<rparr>,
      \<lparr>path = ascii ''notes.txt'', file_size = 6, modified = 90,
       content_hash = ascii ''md5:Q here'', file_type = ascii ''text'', lines = 1\<rparr>,
      \<lparr>path = ascii ''b/blob.MD'', file_size = 3, modified = 101,
       content_hash = ascii ''md5:/srv/proj/b/blob.MD'', file_type = ascii ''markdown'',
       lines = 0\<rparr>]"

text \<open>
  A Markdown file that is not valid UTF-8 and whose name on disk is the bytes
  \<^verbatim>\<open>caf\xe9.md\<close>, which are not valid UTF-8 either: Python keeps the byte \<^verbatim>\<open>\xe9\<close> of the
  name as the lone surrogate U+DCE9.
\<close>

definition demo_badname :: entry where
  "demo_badname =
     \<lparr>rel_parts = [ascii ''b'', ascii ''caf'' @ [0xDCE9] @ ascii ''.md''], is_file = Inr True,
      stat = Some \<lparr>st_size = 3, st_mtime = 101\<rparr>, read_text = Inl UnicodeDecodeError\<rparr>"

text \<open>A file in a directory that may be listed and not searched.\<close>

definition demo_locked :: entry where
  "demo_locked =
     \<lparr>rel_parts = [ascii ''locked'', ascii ''x.py''], is_file = Inl PermissionError,
      stat = None, read_text = Inl PermissionError\<rparr>"


definition demo_world :: world where
  "demo_world =
     \<lparr>rglob = demo_walk, clock = 7, git_head = Some (ascii ''abc123''), db_ok = True\<rparr>"

definition demo_server :: server where
  "demo_server = \<lparr>project_root = demo_root, current_snapshot = None, codebase_snapshots = []\<rparr>"

text \<open>
  The disk at the time of a search: \<^verbatim>\<open>notes.txt\<close> has been removed since the scan. In the
  second disk \<^verbatim>\<open>a.py\<close> has been cut to five lines; in the third it cannot be opened.
\<close>

definition demo_disk :: "str \<Rightarrow> exception + str" where
  "demo_disk p =
     (if p = ascii ''a.py'' then Inr demo_text
      else if p = ascii ''b/blob.MD'' then Inl UnicodeDecodeError
      else Inl FileNotFoundError)"

definition demo_short :: str where
  "demo_short = join [0x0A] (map ascii [''Q'', ''b'', ''c'', ''d'', ''e''])"

definition demo_disk_short :: "str \<Rightarrow> exception + str" where
  "demo_disk_short p = (if p = ascii ''a.py'' then Inr demo_short else demo_disk p)"

definition demo_disk_denied :: "str \<Rightarrow> exception + str" where
  "demo_disk_denied p = (if p = ascii ''a.py'' then Inl PermissionError else demo_disk p)"




section \<open>Properties of the scanner\<close>

subsection \<open>The loop appends the records of the entries it keeps\<close>

lemma relative_to_append: "relative_to (proot @ rel) proot = Some rel"
  by (simp add: relative_to_def)

lemma record_file_eq:
  "record_file proot (proot @ rel) st ftype chash n (fs, ftypes, tlines + n) =
   add_file (fs, ftypes, tlines)
     \<lparr>path = str_path rel, file_size = st_size st, modified = st_mtime st,
      content_hash = chash, file_type = ftype, lines = n\<rparr>"
  by (simp add: record_file_def add_file_def relative_to_append Let_def)

lemma scan_file_eq:
  assumes "\<not> in_ignored_dir (proot @ rel_parts e)" and "is_file e = Inr True"
  shows "scan_file py proot acc e =
         (case file_record py proot e of None \<Rightarrow> acc | Some f \<Rightarrow> add_file acc f)"
proof (cases acc)
  case (fields fs ftypes tlines)
  have z: "record_file proot (proot @ rel) st ftype chash 0 (fs, ftypes, tlines) =
           add_file (fs, ftypes, tlines)
             \<lparr>path = str_path rel, file_size = st_size st, modified = st_mtime st,
              content_hash = chash, file_type = ftype, lines = 0\<rparr>" for rel st ftype chash
    using record_file_eq[of proot rel st ftype chash 0 fs ftypes tlines] by simp
  show ?thesis
    using assms
    by (simp add: scan_file_def file_record_def fields Let_def record_file_eq z
        split: option.split sum.split exception.split)
qed

lemma file_record_not_file:
  "is_file e \<noteq> Inr True \<Longrightarrow> file_record py proot e = None"
  by (simp add: file_record_def Let_def)

lemma scan_entry_eq:
  "scan_entry py proot acc e =
   (if aborts proot e then Inl (projl (is_file e))
    else Inr (case file_record py proot e of None \<Rightarrow> acc | Some f \<Rightarrow> add_file acc f))"
proof (cases "in_ignored_dir (proot @ rel_parts e)")
  case True
  then show ?thesis by (simp add: scan_entry_def aborts_def file_record_def)
next
  case False
  show ?thesis
  proof (cases "is_file e")
    case (Inl x)
    with False show ?thesis by (simp add: scan_entry_def aborts_def)
  next
    case (Inr b)
    show ?thesis
    proof (cases b)
      case True
      with False Inr show ?thesis
        by (simp add: scan_entry_def aborts_def scan_file_eq)
    next
      case no: False
      with Inr have "file_record py proot e = None" by (simp add: file_record_not_file)
      with False Inr no show ?thesis by (simp add: scan_entry_def aborts_def)
    qed
  qed
qed

lemma scan_loop_Inr_iff:
  "scan_loop py proot acc walk = Inr acc' \<longleftrightarrow>
   (\<forall>e\<in>set walk. \<not> aborts proot e) \<and>
   acc' = foldl add_file acc (List.map_filter (file_record py proot) walk)"
proof (induction walk arbitrary: acc)
  case Nil
  show ?case by auto
next
  case (Cons e es)
  show ?case
  proof (cases "aborts proot e")
    case True
    then show ?thesis by (simp add: scan_entry_eq)
  next
    case False
    then show ?thesis
      by (cases "file_record py proot e") (simp_all add: scan_entry_eq Cons.IH)
  qed
qed

lemma histogram_snoc:
  "(histogram xs)(x \<mapsto> Suc (case histogram xs x of None \<Rightarrow> 0 | Some n \<Rightarrow> n)) =
   histogram (xs @ [x])"
  by (rule ext) (auto simp: histogram_def)

lemma foldl_add_file:
  "foldl add_file ([], Map.empty, 0) fs =
   (fs, histogram (map file_type fs), sum_list (map lines fs))"
proof (induction fs rule: rev_induct)
  case Nil
  show ?case by (simp add: histogram_def)
next
  case (snoc f fs)
  then show ?case by (simp add: add_file_def histogram_snoc)
qed

lemma scan_Inr_iff:
  "scan py proot walk now = Inr snapshot \<longleftrightarrow>
   (\<forall>e\<in>set walk. \<not> aborts proot e) \<and>
   snapshot = snapshot_of now (List.map_filter (file_record py proot) walk)"
proof (cases "scan_loop py proot ([], Map.empty, 0) walk")
  case (Inl x)
  then have "\<not> (\<forall>e\<in>set walk. \<not> aborts proot e)"
    using scan_loop_Inr_iff[of py proot "([], Map.empty, 0)" walk
        "foldl add_file ([], Map.empty, 0) (List.map_filter (file_record py proot) walk)"]
    by simp
  with Inl show ?thesis by (simp add: scan_def)
next
  case (Inr acc')
  then have a: "\<forall>e\<in>set walk. \<not> aborts proot e"
    and "acc' = foldl add_file ([], Map.empty, 0) (List.map_filter (file_record py proot) walk)"
    by (simp_all add: scan_loop_Inr_iff)
  then have "acc' = (List.map_filter (file_record py proot) walk,
       histogram (map file_type (List.map_filter (file_record py proot) walk)),
       sum_list (map lines (List.map_filter (file_record py proot) walk)))"
    by (simp add: foldl_add_file)
  with Inr a show ?thesis by (auto simp: scan_def snapshot_of_def)
qed

lemma demo_scan: "scan demo_py demo_root demo_walk 7 = Inr (snapshot_of 7 demo_files)"
proof -
  have "list_all (\<lambda>e. \<not> aborts demo_root e) demo_walk" by code_simp
  moreover have "List.map_filter (file_record demo_py demo_root) demo_walk = demo_files"
    by code_simp
  ultimately show ?thesis by (simp add: scan_Inr_iff list_all_iff)
qed

subsection \<open>The invariant of a snapshot\<close>

text \<open>
  Claim C2. In every snapshot that a scan produces, \<open>total_files\<close> is the length of
  \<open>files\<close>, \<open>total_lines\<close> is the sum of the \<open>lines\<close> of the files, and \<open>file_types\<close> is
  exactly the histogram of the \<open>file_type\<close> of the files.
\<close>

theorem snapshot_invariant:
  assumes "scan py proot walk now = Inr snapshot"
  shows "total_files snapshot = length (files snapshot) \<and>
         total_lines snapshot = sum_list (map lines (files snapshot)) \<and>
         file_types snapshot = histogram (map file_type (files snapshot))"
  using assms by (simp add: scan_Inr_iff snapshot_of_def)

theorem snapshot_invariant_witness:
  "scan demo_py demo_root demo_walk 7 = Inr (snapshot_of 7 demo_files) \<and>
   total_files (snapshot_of 7 demo_files) = 3 \<and>
   total_lines (snapshot_of 7 demo_files) = 21 \<and>
   file_types (snapshot_of 7 demo_files) (ascii ''python'') = Some 1 \<and>
   file_types (snapshot_of 7 demo_files) (ascii ''markdown'') = Some 1 \<and>
   file_types (snapshot_of 7 demo_files) (ascii ''rust'') = None"
proof -
  have f: "files (snapshot_of 7 demo_files) = demo_files" by (simp add: snapshot_of_def)
  have v: "length demo_files = 3" "sum_list (map lines demo_files) = 21"
    "histogram (map file_type demo_files) (ascii ''python'') = Some 1"
    "histogram (map file_type demo_files) (ascii ''markdown'') = Some 1"
    "histogram (map file_type demo_files) (ascii ''rust'') = None"
    by code_simp+
  show ?thesis
    using snapshot_invariant[OF demo_scan] demo_scan by (simp add: f v)
qed

subsection \<open>Scanning an unchanged tree again\<close>

lemma histogram_mset:
  assumes "mset xs = mset ys"
  shows "histogram xs = histogram ys"
proof -
  from assms have "set xs = set ys" by (rule mset_eq_setD)
  moreover have "count_list xs c = count_list ys c" for c
    using assms by (metis count_mset)
  ultimately show ?thesis unfolding histogram_def by presburger
qed

lemma summary_file_record:
  assumes "file_record py proot e = Some f"
  shows "summary f = summary_of py proot (source_of e)"
proof -
  from assms obtain ftype where c: "code_extensions (lower py (suffix_of (proot @ rel_parts e))) = Some ftype"
    by (cases "code_extensions (lower py (suffix_of (proot @ rel_parts e)))")
       (simp_all add: file_record_def Let_def split: if_splits)
  from assms c obtain st where st: "stat e = Some st"
    by (cases "stat e") (simp_all add: file_record_def Let_def split: if_splits)
  show ?thesis
  proof (cases "read_text e")
    case (Inr body)
    with assms c st show ?thesis
      by (cases "encode body")
         (auto simp: file_record_def summary_of_def source_of_def summary_def Let_def
          split: if_splits)
  next
    case (Inl x)
    with assms c st show ?thesis
      by (cases x; cases "encode (str_path (proot @ rel_parts e))")
         (auto simp: file_record_def summary_of_def source_of_def summary_def Let_def
          split: if_splits)
  qed
qed

lemma map_summary:
  "map summary (List.map_filter (file_record py proot) walk) =
   map (summary_of py proot) (map source_of (filter (tracked py proot) walk))"
proof (induction walk)
  case Nil
  show ?case by simp
next
  case (Cons e es)
  show ?case
  proof (cases "file_record py proot e")
    case None
    with Cons show ?thesis by (simp add: tracked_def)
  next
    case (Some f)
    with Cons show ?thesis by (simp add: tracked_def summary_file_record)
  qed
qed

lemma summary_determines:
  assumes "mset (map summary fs') = mset (map summary fs)"
  shows "length fs' = length fs"
    and "sum_list (map lines fs') = sum_list (map lines fs)"
    and "histogram (map file_type fs') = histogram (map file_type fs)"
    and "mset (map (\<lambda>f. (path f, content_hash f)) fs') =
         mset (map (\<lambda>f. (path f, content_hash f)) fs)"
proof -
  have g: "mset (map (\<lambda>f. g (summary f)) fs') = mset (map (\<lambda>f. g (summary f)) fs)"
    for g :: "str \<times> str \<times> str \<times> nat \<Rightarrow> 'b"
  proof -
    have "mset (map (\<lambda>f. g (summary f)) xs) = image_mset g (mset (map summary xs))" for xs
      by (simp add: multiset.map_comp comp_def)
    then show ?thesis by (simp only: assms)
  qed
  from assms have "size (mset (map summary fs')) = size (mset (map summary fs))"
    by (simp only:)
  then show "length fs' = length fs" by simp
  from g[of "\<lambda>(p, h, t, l). l"] have "mset (map lines fs') = mset (map lines fs)"
    by (simp add: summary_def)
  then have "sum_mset (mset (map lines fs')) = sum_mset (mset (map lines fs))"
    by (simp only:)
  then show "sum_list (map lines fs') = sum_list (map lines fs)"
    by (simp only: sum_mset_sum_list)
  from g[of "\<lambda>(p, h, t, l). t"] have "mset (map file_type fs') = mset (map file_type fs)"
    by (simp add: summary_def)
  then show "histogram (map file_type fs') = histogram (map file_type fs)"
    by (rule histogram_mset)
  from g[of "\<lambda>(p, h, t, l). (p, h)"]
  show "mset (map (\<lambda>f. (path f, content_hash f)) fs') =
        mset (map (\<lambda>f. (path f, content_hash f)) fs)"
    by (simp add: summary_def)
qed

text \<open>
  Claim C3. Two scans of a tree whose contents have not changed give the same
  \<open>total_files\<close>, the same \<open>total_lines\<close>, the same \<open>file_types\<close> and the same digest for
  every path; only the timestamps may differ. The contents have not changed when both
  walks hold the same tracked files with the same content, in any order; what else the walks
  hold, and the size and the modification time of every file, may differ.
\<close>

theorem scan_idempotent:
  assumes "mset (map source_of (filter (tracked py proot) walk')) =
           mset (map source_of (filter (tracked py proot) walk))"
    and "scan py proot walk now = Inr snapshot"
    and "scan py proot walk' now' = Inr snapshot'"
  shows "total_files snapshot' = total_files snapshot \<and>
         total_lines snapshot' = total_lines snapshot \<and>
         file_types snapshot' = file_types snapshot \<and>
         mset (map (\<lambda>f. (path f, content_hash f)) (files snapshot')) =
         mset (map (\<lambda>f. (path f, content_hash f)) (files snapshot))"
proof -
  let ?fs' = "List.map_filter (file_record py proot) walk'"
  let ?fs = "List.map_filter (file_record py proot) walk"
  have "mset (map summary ?fs') =
        image_mset (summary_of py proot) (mset (map source_of (filter (tracked py proot) walk')))"
    unfolding map_summary by (rule mset_map)
  also have "\<dots> =
        image_mset (summary_of py proot) (mset (map source_of (filter (tracked py proot) walk)))"
    by (simp only: assms(1))
  also have "\<dots> = mset (map summary ?fs)"
    unfolding map_summary by (rule mset_map[symmetric])
  finally have m: "mset (map summary ?fs') = mset (map summary ?fs)" .
  from assms(2) have s: "snapshot = snapshot_of now ?fs" by (simp add: scan_Inr_iff)
  from assms(3) have s': "snapshot' = snapshot_of now' ?fs'" by (simp add: scan_Inr_iff)
  show ?thesis
    using summary_determines[OF m] by (simp add: s s' snapshot_of_def)
qed

theorem scan_idempotent_witness:
  "mset (map source_of (filter (tracked demo_py demo_root) demo_walk_later)) =
     mset (map source_of (filter (tracked demo_py demo_root) demo_walk)) \<and>
   mset demo_walk_later \<noteq> mset demo_walk \<and>
   scan demo_py demo_root demo_walk 7 = Inr (snapshot_of 7 demo_files) \<and>
   (\<exists>later. scan demo_py demo_root demo_walk_later 9 = Inr later \<and>
      total_files later = 3 \<and> total_lines later = 21 \<and>
      file_types later = histogram (map file_type demo_files) \<and>
      mset (map (\<lambda>f. (path f, content_hash f)) (files later)) =
      mset (map (\<lambda>f. (path f, content_hash f)) demo_files))"
proof -
  have "map source_of (filter (tracked demo_py demo_root) demo_walk_later) =
        rev (map source_of (filter (tracked demo_py demo_root) demo_walk))"
    by code_simp
  then have h: "mset (map source_of (filter (tracked demo_py demo_root) demo_walk_later)) =
                mset (map source_of (filter (tracked demo_py demo_root) demo_walk))"
    by (metis mset_rev)
  have "size (mset demo_walk_later) \<noteq> size (mset demo_walk) \<or>
        \<not> set demo_walk_later \<subseteq> set demo_walk"
    by (simp add: demo_walk_later_def demo_walk_def demo_before_def demo_blob_def)
  then have d: "mset demo_walk_later \<noteq> mset demo_walk"
    by (metis mset_eq_setD subset_refl)
  have "list_all (\<lambda>e. \<not> aborts demo_root e) demo_walk_later" by code_simp
  then obtain later where l: "scan demo_py demo_root demo_walk_later 9 = Inr later"
    by (simp add: scan_Inr_iff list_all_iff)
  have v: "length demo_files = 3" "sum_list (map lines demo_files) = 21"
    by code_simp+
  show ?thesis
    using scan_idempotent[OF h demo_scan l] h d demo_scan l
    by (simp add: snapshot_of_def v)
qed

subsection \<open>Undecodable files\<close>

lemma map_filter_append:
  "List.map_filter g (xs @ ys) = List.map_filter g xs @ List.map_filter g ys"
  by (simp add: map_filter_def)

lemma histogram_insert:
  "histogram (xs @ x # ys) =
   (histogram (xs @ ys))(x \<mapsto> Suc (case histogram (xs @ ys) x of None \<Rightarrow> 0 | Some n \<Rightarrow> n))"
  by (rule ext) (auto simp: histogram_def count_list_0_iff)

text \<open>
  A file that the scanner looks into, whose content does not decode as text and whose path
  string can be encoded, does not stop the scan: it gets a record with \<open>lines = 0\<close> and the
  digest of its path string, it adds nothing to \<open>total_lines\<close>, and it adds one to
  \<open>total_files\<close> and to the counter of its category. The snapshots compared are the one of
  a walk that holds the file and the one of the same walk without it.
\<close>

lemma undecodable_file_recorded:
  assumes "\<not> in_ignored_dir (proot @ rel_parts e)"
    and "is_file e = Inr True"
    and "code_extensions (lower py (suffix_of (proot @ rel_parts e))) = Some ftype"
    and "stat e = Some st"
    and "read_text e = Inl UnicodeDecodeError"
    and "encode (str_path (proot @ rel_parts e)) = Inr b"
    and "scan py proot (before @ after) now = Inr without"
  shows "\<exists>snapshot fs1 fs2.
           scan py proot (before @ e # after) now = Inr snapshot \<and>
           files without = fs1 @ fs2 \<and>
           files snapshot =
             fs1 @ \<lparr>path = str_path (rel_parts e), file_size = st_size st,
                    modified = st_mtime st, content_hash = md5 py b,
                    file_type = ftype, lines = 0\<rparr> # fs2 \<and>
           total_lines snapshot = total_lines without \<and>
           total_files snapshot = total_files without + 1 \<and>
           file_types snapshot =
             (file_types without)
               (ftype \<mapsto> (case file_types without ftype of None \<Rightarrow> 0 | Some n \<Rightarrow> n) + 1)"
proof -
  let ?f = "\<lparr>path = str_path (rel_parts e), file_size = st_size st, modified = st_mtime st,
             content_hash = md5 py b, file_type = ftype, lines = 0\<rparr>"
  let ?fs1 = "List.map_filter (file_record py proot) before"
  let ?fs2 = "List.map_filter (file_record py proot) after"
  have r: "file_record py proot e = Some ?f"
    using assms(1-6) by (simp add: file_record_def)
  have n: "\<not> aborts proot e" using assms(2) by (simp add: aborts_def)
  have m: "List.map_filter (file_record py proot) (before @ e # after) = ?fs1 @ ?f # ?fs2"
    by (simp add: map_filter_append r)
  have m': "List.map_filter (file_record py proot) (before @ after) = ?fs1 @ ?fs2"
    by (rule map_filter_append)
  from assms(7) have w: "\<forall>x\<in>set (before @ after). \<not> aborts proot x"
    and s: "without = snapshot_of now (?fs1 @ ?fs2)"
    by (simp_all add: scan_Inr_iff m')
  from w n have "scan py proot (before @ e # after) now = Inr (snapshot_of now (?fs1 @ ?f # ?fs2))"
    by (simp add: scan_Inr_iff m)
  moreover have "files without = ?fs1 @ ?fs2" by (simp add: s snapshot_of_def)
  ultimately show ?thesis
    by (intro exI[of _ "snapshot_of now (?fs1 @ ?f # ?fs2)"] exI[of _ ?fs1] exI[of _ ?fs2])
       (simp add: s snapshot_of_def histogram_insert)
qed

text \<open>
  Claim C4, which the source breaks. A file whose content does not decode as text and
  whose name holds a byte that is not valid UTF-8 passes the ignore test and the test of
  its extension; the digest of its path string cannot be computed, because the string
  does not encode, and the outer handler goes on to the next entry: the scan completes,
  and the file has no record and is counted neither in \<open>total_files\<close> nor in the counter of
  its category. The comment of the source at this place reads \<^verbatim>\<open>Binary file, just get hash
  of path\<close>.
\<close>

theorem undecodable_file_unencodable_path:
  "in_ignored_dir (demo_root @ rel_parts demo_badname) = False \<and>
   is_file demo_badname = Inr True \<and>
   code_extensions (lower demo_py (suffix_of (demo_root @ rel_parts demo_badname))) =
     Some (ascii ''markdown'') \<and>
   stat demo_badname = Some \<lparr>st_size = 3, st_mtime = 101\<rparr> \<and>
   read_text demo_badname = Inl UnicodeDecodeError \<and>
   encode (str_path (demo_root @ rel_parts demo_badname)) = Inl UnicodeEncodeError \<and>
   map_sum id (\<lambda>s. (total_files s, total_lines s, files s, file_types s (ascii ''markdown'')))
     (scan demo_py demo_root [demo_badname] 7) = Inr (0, 0, [], None)"
  by code_simp

subsection \<open>Ignored directories\<close>

lemma in_ignored_dir_append:
  "in_ignored_dir (p @ q) = (in_ignored_dir p \<or> in_ignored_dir q)"
  by (auto simp: in_ignored_dir_def list_ex_iff)

lemma scan_entry_ignored:
  "in_ignored_dir proot \<or> in_ignored_dir (rel_parts e) \<Longrightarrow> scan_entry py proot acc e = Inr acc"
  by (simp add: scan_entry_def in_ignored_dir_append)




lemma scan_loop_filter_ignored:
  "scan_loop py proot acc (filter (\<lambda>e. \<not> in_ignored_dir (rel_parts e)) walk) =
   scan_loop py proot acc walk"
  by (induction walk arbitrary: acc) (simp_all add: scan_entry_ignored split: sum.split)

lemma split_from_no_sep:
  "sep \<notin> set p \<Longrightarrow> split_from sep cur (p @ rest) = split_from sep (cur @ p) rest"
  by (induction p arbitrary: cur) auto

lemma split_from_join:
  assumes "ps \<noteq> []" and "\<forall>p\<in>set ps. sep \<notin> set p"
  shows "split_from sep cur (join [sep] ps) = (cur @ hd ps) # tl ps"
  using assms
proof (induction "[sep]" ps arbitrary: cur rule: join.induct)
  case 1
  then show ?case by simp
next
  case (2 x)
  then show ?case using split_from_no_sep[of sep x cur "[]"] by simp
next
  case (3 x y ys)
  have "split_from sep cur (x @ sep # join [sep] (y # ys)) =
        split_from sep (cur @ x) (sep # join [sep] (y # ys))"
    using 3(3) by (simp add: split_from_no_sep)
  also have "\<dots> = (cur @ x) # split_from sep [] (join [sep] (y # ys))" by simp
  also have "split_from sep [] (join [sep] (y # ys)) = y # ys"
    using 3(1)[of "[]"] 3(3) by simp
  finally show ?case by simp
qed

lemma ascii_slash: "ascii ''/'' = [0x2F]"
  by (simp add: ascii_def)

lemma segments_str_path:
  assumes "rel \<noteq> []" and "\<forall>p\<in>set rel. 0x2F \<notin> set p"
  shows "segments (str_path rel) = rel"
proof -
  from assms obtain r rest where rel: "rel = r # rest" by (cases rel) auto
  with assms have "r \<noteq> [0x2F]" by auto
  then have "str_path rel = join [0x2F] rel" by (simp add: str_path_def rel ascii_slash)
  then show ?thesis
    using split_from_join[OF assms, of "[]"] by (simp add: segments_def rel)
qed

lemma in_map_filter:
  "y \<in> set (List.map_filter g xs) \<Longrightarrow> \<exists>x\<in>set xs. g x = Some y"
  by (auto simp: map_filter_def)

lemma file_record_path:
  assumes "file_record py proot e = Some f"
  shows "path f = str_path (rel_parts e)" and "\<not> in_ignored_dir (rel_parts e)"
proof -
  from summary_file_record[OF assms] show "path f = str_path (rel_parts e)"
    by (simp add: summary_def summary_of_def source_of_def)
  from assms have "\<not> in_ignored_dir (proot @ rel_parts e)"
    by (auto simp: file_record_def Let_def split: if_splits)
  then show "\<not> in_ignored_dir (rel_parts e)" by (simp add: in_ignored_dir_append)
qed

lemma root_segment_not_ignored: "\<not> in_ignored_dir (segments (str_path []))"
  by code_simp

text \<open>
  Claim C5. A file whose path below the root has a segment equal to an ignored name never
  appears in the snapshot of a scan: no record of the snapshot has such a path, and the
  scan, with its \<open>total_files\<close>, \<open>total_lines\<close> and \<open>file_types\<close>, is the one of the walk
  without these files. The components of a path hold no slash.
\<close>

theorem ignored_files_absent:
  assumes "\<forall>e\<in>set walk. \<forall>part\<in>set (rel_parts e). 0x2F \<notin> set part"
  shows "(\<forall>snapshot. scan py proot walk now = Inr snapshot \<longrightarrow>
            (\<forall>f\<in>set (files snapshot). \<not> in_ignored_dir (segments (path f)))) \<and>
         scan py proot walk now =
           scan py proot (filter (\<lambda>e. \<not> in_ignored_dir (rel_parts e)) walk) now"
proof
  show "\<forall>snapshot. scan py proot walk now = Inr snapshot \<longrightarrow>
          (\<forall>f\<in>set (files snapshot). \<not> in_ignored_dir (segments (path f)))"
  proof (intro allI impI ballI)
    fix snapshot f
    assume "scan py proot walk now = Inr snapshot" and "f \<in> set (files snapshot)"
    then have "f \<in> set (List.map_filter (file_record py proot) walk)"
      by (simp add: scan_Inr_iff snapshot_of_def)
    then obtain e where e: "e \<in> set walk" "file_record py proot e = Some f"
      by (blast dest: in_map_filter)
    then have p: "path f = str_path (rel_parts e)" and n: "\<not> in_ignored_dir (rel_parts e)"
      by (simp_all add: file_record_path)
    show "\<not> in_ignored_dir (segments (path f))"
    proof (cases "rel_parts e = []")
      case True
      then show ?thesis by (simp add: p root_segment_not_ignored)
    next
      case False
      with assms e(1) have "segments (str_path (rel_parts e)) = rel_parts e"
        by (intro segments_str_path) auto
      with n p show ?thesis by simp
    qed
  qed
next
  show "scan py proot walk now =
        scan py proot (filter (\<lambda>e. \<not> in_ignored_dir (rel_parts e)) walk) now"
    by (simp add: scan_def scan_loop_filter_ignored)
qed

theorem ignored_files_absent_witness:
  "list_all (\<lambda>e. list_all (\<lambda>part. 0x2F \<notin> set part) (rel_parts e)) demo_walk \<and>
   scan demo_py demo_root demo_walk 7 = Inr (snapshot_of 7 demo_files) \<and>
   list_all (\<lambda>f. \<not> in_ignored_dir (segments (path f))) (files (snapshot_of 7 demo_files)) \<and>
   in_ignored_dir (segments (ascii ''b/node_modules/c.py'')) \<and>
   map path (files (snapshot_of 7 demo_files)) =
     map ascii [''a.py'', ''notes.txt'', ''b/blob.MD''] \<and>
   scan demo_py demo_root (filter (\<lambda>e. \<not> in_ignored_dir (rel_parts e)) demo_walk) 7 =
     Inr (snapshot_of 7 demo_files)"
proof -
  have w: "list_all (\<lambda>e. list_all (\<lambda>part. 0x2F \<notin> set part) (rel_parts e)) demo_walk"
    by code_simp
  then have h: "\<forall>e\<in>set demo_walk. \<forall>part\<in>set (rel_parts e). 0x2F \<notin> set part"
    by (simp add: list_all_iff)
  have s: "in_ignored_dir (segments (ascii ''b/node_modules/c.py''))" by code_simp
  have m: "map path (files (snapshot_of 7 demo_files)) =
           map ascii [''a.py'', ''notes.txt'', ''b/blob.MD'']"
    by (simp add: snapshot_of_def demo_files_def)
  note t = ignored_files_absent[OF h, of demo_py demo_root 7]
  from t demo_scan have "list_all (\<lambda>f. \<not> in_ignored_dir (segments (path f)))
                 (files (snapshot_of 7 demo_files))"
    unfolding list_all_iff by blast
  moreover from t demo_scan
  have "scan demo_py demo_root (filter (\<lambda>e. \<not> in_ignored_dir (rel_parts e)) demo_walk) 7 =
        Inr (snapshot_of 7 demo_files)"
    by simp
  ultimately show ?thesis using w s m demo_scan by blast
qed

section \<open>Properties of the search\<close>

subsection \<open>The results of a search that completes\<close>

lemma search_loop_Inr:
  "search_loop py disk type_arg cs q fs res = Inr out \<Longrightarrow>
   out = res @ concat (map (search_hits py disk type_arg cs q) fs)"
proof (induction fs arbitrary: res)
  case Nil
  then show ?case by simp
next
  case (Cons f fs)
  show ?case
  proof (cases "filtered_out type_arg f")
    case True
    with Cons.prems have "search_loop py disk type_arg cs q fs res = Inr out" by simp
    from Cons.IH[OF this] True show ?thesis by (simp add: search_hits_def)
  next
    case False
    show ?thesis
    proof (cases "disk (path f)")
      case (Inr body)
      with False Cons.prems
      have "search_loop py disk type_arg cs q fs (res @ search_file py cs q f body) = Inr out"
        by simp
      from Cons.IH[OF this] False Inr show ?thesis by (simp add: search_hits_def)
    next
      case (Inl e)
      with False Cons.prems have "search_loop py disk type_arg cs q fs res = Inr out"
        by (cases e) simp_all
      from Cons.IH[OF this] False Inl show ?thesis by (simp add: search_hits_def)
    qed
  qed
qed

lemma search_loop_completes:
  "\<forall>f\<in>set fs. filtered_out type_arg f \<or> disk (path f) = Inl UnicodeDecodeError \<or>
       disk (path f) = Inl FileNotFoundError \<or> (\<exists>text. disk (path f) = Inr text) \<Longrightarrow>
   \<exists>out. search_loop py disk type_arg cs q fs res = Inr out"
proof (induction fs arbitrary: res)
  case Nil
  then show ?case by simp
next
  case (Cons f fs)
  then show ?case by (auto split: sum.splits exception.splits)
qed

lemma search_hits_readable:
  "r \<in> set (search_hits py disk type_arg cs q f) \<Longrightarrow>
   \<exists>text. disk (path f) = Inr text \<and> r \<in> set (search_file py cs q f text)"
  by (cases "disk (path f)") (auto simp: search_hits_def split: if_splits)

lemma search_file_result:
  "r \<in> set (search_file py cs q f text) \<Longrightarrow>
   result_file r = path f \<and> result_file_type r = file_type f \<and>
   matches r = take 10 (matching_lines py cs q (splitlines text)) \<and>
   matching_lines py cs q (splitlines text) \<noteq> []"
  by (auto simp: search_file_def Let_def split: if_splits)

lemma ensure_snapshot_current:
  "ensure_snapshot py w srv = Inr (snapshot, srv') \<Longrightarrow> current_snapshot srv' = Some snapshot"
  by (auto simp: ensure_snapshot_def scan_codebase_def save_snapshot_def
      split: option.splits sum.splits if_splits)

lemma search_content_Inr:
  assumes "search_content py w disk q type_arg cs srv = (Inr resp, srv')"
  shows "\<exists>snapshot. ensure_snapshot py w srv = Inr (snapshot, srv') \<and>
           results resp =
             concat (map (search_hits py disk type_arg cs
                            (if cs then strip q else lower py (strip q)))
                      (files snapshot)) \<and>
           total_files_searched resp = length (files snapshot) \<and>
           files_with_matches resp = length (results resp)"
proof (cases "ensure_snapshot py w srv")
  case (Inl x)
  with assms show ?thesis
    by (simp add: search_content_def Let_def split: if_splits)
next
  case (Inr p)
  obtain snapshot s where p: "p = (snapshot, s)" by (cases p)
  from assms Inr p show ?thesis
    by (auto simp: search_content_def Let_def split: if_splits sum.splits
        dest!: search_loop_Inr)
qed

lemma demo_ensure_snapshot:
  "ensure_snapshot demo_py demo_world demo_server =
     Inr (snapshot_of 7 demo_files,
          save_snapshot demo_world (snapshot_of 7 demo_files)
            (demo_server\<lparr>current_snapshot := Some (snapshot_of 7 demo_files)\<rparr>))"
  using demo_scan
  by (simp add: ensure_snapshot_def scan_codebase_def demo_server_def demo_world_def)

subsection \<open>The count of files searched\<close>

text \<open>
  Claim C9. Whatever the type filter of a search request, \<open>total_files_searched\<close> in the
  response is the number of files of the whole current snapshot: the files that the
  filter skips and the files that could not be read are counted too.
\<close>

theorem total_files_searched_counts_snapshot:
  assumes "search_content py w disk q type_arg cs srv = (Inr resp, srv')"
  shows "\<exists>snapshot. current_snapshot srv' = Some snapshot \<and>
           total_files_searched resp = length (files snapshot)"
  using search_content_Inr[OF assms] by (auto dest: ensure_snapshot_current)

theorem total_files_searched_counts_snapshot_witness:
  "fst (search_content demo_py demo_world demo_disk (ascii ''Q'') (Some (ascii ''markdown''))
         True demo_server) =
     Inr \<lparr>query = ascii ''Q'', results = [], total_files_searched = 3,
          files_with_matches = 0\<rparr> \<and>
   length (filter (\<lambda>f. \<not> filtered_out (Some (ascii ''markdown'')) f) demo_files) = 1 \<and>
   (\<exists>snapshot.
      current_snapshot
        (snd (search_content demo_py demo_world demo_disk (ascii ''Q'')
               (Some (ascii ''markdown'')) True demo_server)) = Some snapshot \<and>
      length (files snapshot) = 3)"
proof -
  let ?run = "search_content demo_py demo_world demo_disk (ascii ''Q'')
                (Some (ascii ''markdown'')) True demo_server"
  let ?resp = "\<lparr>query = ascii ''Q'', results = [], total_files_searched = 3,
                files_with_matches = 0\<rparr>"
  have e: "fst ?run = Inr ?resp" by code_simp
  then have h: "?run = (Inr ?resp, snd ?run)" by (metis prod.collapse)
  have n: "length (filter (\<lambda>f. \<not> filtered_out (Some (ascii ''markdown'')) f) demo_files) = 1"
    by code_simp
  show ?thesis
    using total_files_searched_counts_snapshot[OF h] e n by simp
qed

subsection \<open>Files that cannot be read at search time\<close>

text \<open>
  Claim C7, as amended. A file of the current snapshot whose read fails with a decoding
  error, or because the file is no longer there, is silently left out of the results of a
  search: when there is a current snapshot, or the scan that builds the first one
  completes, and no read fails in any other way, the search completes normally, returns
  no error, and no entry of its results names a file that could not be read.
\<close>

theorem search_skips_undecodable_and_missing:
  assumes "strip q \<noteq> []"
    and "ensure_snapshot py w srv = Inr (snapshot, srv')"
    and "\<forall>f\<in>set (files snapshot).
           filtered_out type_arg f \<or> disk (path f) = Inl UnicodeDecodeError \<or>
           disk (path f) = Inl FileNotFoundError \<or> (\<exists>text. disk (path f) = Inr text)"
  shows "\<exists>resp. search_content py w disk q type_arg cs srv = (Inr resp, srv') \<and>
           (\<forall>r\<in>set (results resp). \<exists>text. disk (result_file r) = Inr text)"
proof -
  let ?sq = "if cs then strip q else lower py (strip q)"
  from assms(3) obtain out where
    out: "search_loop py disk type_arg cs ?sq (files snapshot) [] = Inr out"
    using search_loop_completes[of "files snapshot" type_arg disk py cs ?sq "[]"] by auto
  then have sc: "search_content py w disk q type_arg cs srv =
        (Inr \<lparr>query = strip q, results = out, total_files_searched = length (files snapshot),
              files_with_matches = length out\<rparr>, srv')"
    using assms(1,2) by (simp add: search_content_def Let_def)
  have "\<exists>text. disk (result_file r) = Inr text" if "r \<in> set out" for r
  proof -
    from search_loop_Inr[OF out] that obtain f where
      "r \<in> set (search_hits py disk type_arg cs ?sq f)" by auto
    then obtain body where "disk (path f) = Inr body" "r \<in> set (search_file py cs ?sq f body)"
      by (blast dest: search_hits_readable)
    then show ?thesis by (auto dest: search_file_result)
  qed
  with sc show ?thesis by simp
qed

theorem search_skips_undecodable_and_missing_witness:
  "strip (ascii ''Q'') \<noteq> [] \<and>
   current_snapshot demo_server = None \<and>
   ensure_snapshot demo_py demo_world demo_server =
     Inr (snapshot_of 7 demo_files,
          save_snapshot demo_world (snapshot_of 7 demo_files)
            (demo_server\<lparr>current_snapshot := Some (snapshot_of 7 demo_files)\<rparr>)) \<and>
   list_all
     (\<lambda>f. filtered_out None f \<or> demo_disk (path f) = Inl UnicodeDecodeError \<or>
          demo_disk (path f) = Inl FileNotFoundError \<or> (\<exists>text. demo_disk (path f) = Inr text))
     (files (snapshot_of 7 demo_files)) \<and>
   demo_disk (ascii ''notes.txt'') = Inl FileNotFoundError \<and>
   demo_disk (ascii ''b/blob.MD'') = Inl UnicodeDecodeError \<and>
   (\<exists>resp. fst (search_content demo_py demo_world demo_disk (ascii ''Q'') None True
                  demo_server) = Inr resp \<and>
           list_all (\<lambda>r. \<exists>text. demo_disk (result_file r) = Inr text) (results resp))"
proof -
  have q: "strip (ascii ''Q'') \<noteq> []" by code_simp
  have c: "current_snapshot demo_server = None" by (simp add: demo_server_def)
  have d: "demo_disk (ascii ''a.py'') = Inr demo_text"
    "demo_disk (ascii ''notes.txt'') = Inl FileNotFoundError"
    "demo_disk (ascii ''b/blob.MD'') = Inl UnicodeDecodeError"
    by code_simp+
  have h: "\<forall>f\<in>set (files (snapshot_of 7 demo_files)).
             filtered_out None f \<or> demo_disk (path f) = Inl UnicodeDecodeError \<or>
             demo_disk (path f) = Inl FileNotFoundError \<or> (\<exists>text. demo_disk (path f) = Inr text)"
    by (simp add: snapshot_of_def demo_files_def d)
  from search_skips_undecodable_and_missing[OF q demo_ensure_snapshot h, of True]
  have "\<exists>resp. fst (search_content demo_py demo_world demo_disk (ascii ''Q'') None True
                  demo_server) = Inr resp \<and>
           list_all (\<lambda>r. \<exists>text. demo_disk (result_file r) = Inr text) (results resp)"
    by (auto simp: list_all_iff)
  with q c demo_ensure_snapshot h d show ?thesis
    by (simp add: list_all_iff)
qed

text \<open>
  Claim C7, as stated, fails: when the read of a file of the snapshot fails with
  \<^verbatim>\<open>PermissionError\<close>, the exception leaves the handler and the search answers with an
  error.
\<close>

theorem search_permission_error_counterexample:
  "fst (search_content demo_py demo_world demo_disk_denied (ascii ''Q'') None True demo_server) =
     Inl (ServerError PermissionError)"
  by code_simp

text \<open>
  The scan that builds the first snapshot can fail too: with a file in a directory that
  may not be searched, the exception of \<^verbatim>\<open>is_file()\<close> leaves the handler, and the server
  still has no snapshot.
\<close>

lemma search_first_scan_fails:
  "fst (search_content demo_py (demo_world\<lparr>rglob := demo_locked # demo_walk\<rparr>) demo_disk
         (ascii ''Q'') None True demo_server) = Inl (ServerError PermissionError) \<and>
   current_snapshot
     (snd (search_content demo_py (demo_world\<lparr>rglob := demo_locked # demo_walk\<rparr>) demo_disk
            (ascii ''Q'') None True demo_server)) = None"
  by code_simp

subsection \<open>Matches and their context\<close>

lemma slice_nonneg:
  "0 \<le> a \<Longrightarrow> 0 \<le> b \<Longrightarrow> slice xs a b = drop (nat a) (take (nat b) xs)"
  by (simp add: slice_def slice_bound_def min_def)

lemma context_after_eq:
  assumes "k < length lns"
  shows "context_after (match_at lns (int k)) = take 2 (drop (Suc k) lns)"
proof (cases "Suc k < length lns")
  case True
  have "slice lns (int k + 1) (min (int (length lns)) (int k + 3)) =
        drop (Suc k) (take (min (length lns) (k + 3)) lns)"
    by (simp add: slice_nonneg nat_add_distrib min_def)
  also have "\<dots> = drop (Suc k) (take (k + 3) lns)"
    by (simp add: min_def)
  also have "\<dots> = take 2 (drop (Suc k) lns)"
    by (simp add: drop_take)
  finally show ?thesis using True by (simp add: match_at_def)
next
  case False
  with assms show ?thesis by (simp add: match_at_def)
qed

lemma context_before_eq:
  "2 \<le> k \<Longrightarrow> context_before (match_at lns (int k)) = take 2 (drop (k - 2) lns)"
  by (simp add: match_at_def slice_nonneg drop_take nat_diff_distrib' max_def)

lemma context_before_first:
  "context_before (match_at lns 0) = []"
  by (simp add: match_at_def)

lemma concat_map_if:
  "concat (map (\<lambda>k. if P k then [g k] else []) xs) = map g (filter P xs)"
  by (induction xs) simp_all

lemma matching_lines_eq:
  "matching_lines py cs q lns =
   map (\<lambda>k. match_at lns (int k))
     (filter (\<lambda>k. contains (if cs then lns ! k else lower py (lns ! k)) q) [0..<length lns])"
  unfolding matching_lines_def by (rule concat_map_if)

lemma line_number_match_at: "line_number (match_at lns i) = i + 1"
  by (simp add: match_at_def)

lemma matching_lines_numbers:
  "sorted_wrt (<) (map line_number (matching_lines py cs q lns))"
proof -
  have "sorted_wrt (<) (filter P [0..<n])" for P :: "nat \<Rightarrow> bool" and n
    by (rule sorted_wrt_filter) simp
  then show ?thesis
    unfolding matching_lines_eq sorted_wrt_map
    by (rule sorted_wrt_mono_rel[rotated]) (simp add: line_number_match_at)
qed

lemma matching_lines_member:
  "m \<in> set (matching_lines py cs q lns) \<Longrightarrow> \<exists>k<length lns. m = match_at lns (int k)"
  unfolding matching_lines_eq by auto

text \<open>
  Claim C1, as amended. For every file with a matching line, the search returns at most 10
  matches, in ascending order of line number. Every match carries the lines that follow
  it, at most 2 of them and fewer only at the end of the file; a match on line 3 or later
  carries the 2 lines before it, and a match on line 1 carries none.
\<close>

theorem search_matches_context:
  assumes "search_content py w disk q type_arg cs srv = (Inr resp, srv')"
    and "r \<in> set (results resp)"
  shows "\<exists>text. disk (result_file r) = Inr text \<and>
           matches r \<noteq> [] \<and> length (matches r) \<le> 10 \<and>
           sorted_wrt (<) (map line_number (matches r)) \<and>
           (\<forall>m\<in>set (matches r).
              1 \<le> line_number m \<and> line_number m \<le> int (length (splitlines text)) \<and>
              context_after m = take 2 (drop (nat (line_number m)) (splitlines text)) \<and>
              (3 \<le> line_number m \<longrightarrow>
                 context_before m = take 2 (drop (nat (line_number m) - 3) (splitlines text))) \<and>
              (line_number m = 1 \<longrightarrow> context_before m = []))"
proof -
  let ?sq = "if cs then strip q else lower py (strip q)"
  from search_content_Inr[OF assms(1)] assms(2) obtain f where
    "r \<in> set (search_hits py disk type_arg cs ?sq f)" by auto
  then obtain body where t: "disk (path f) = Inr body"
    and "r \<in> set (search_file py cs ?sq f body)"
    by (blast dest: search_hits_readable)
  then have r: "result_file r = path f"
      "matches r = take 10 (matching_lines py cs ?sq (splitlines body))"
      "matching_lines py cs ?sq (splitlines body) \<noteq> []"
    by (auto dest: search_file_result)
  let ?lns = "splitlines body"
  have "sorted_wrt (<) (map line_number (matches r))"
    unfolding r(2) take_map[symmetric] by (rule sorted_wrt_take) (rule matching_lines_numbers)
  moreover have "1 \<le> line_number m \<and> line_number m \<le> int (length ?lns) \<and>
         context_after m = take 2 (drop (nat (line_number m)) ?lns) \<and>
         (3 \<le> line_number m \<longrightarrow> context_before m = take 2 (drop (nat (line_number m) - 3) ?lns)) \<and>
         (line_number m = 1 \<longrightarrow> context_before m = [])" if "m \<in> set (matches r)" for m
  proof -
    from that have "m \<in> set (matching_lines py cs ?sq ?lns)"
      unfolding r(2) by (rule in_set_takeD)
    then obtain k where k: "k < length ?lns" "m = match_at ?lns (int k)"
      by (blast dest: matching_lines_member)
    have a: "context_after m = take 2 (drop (Suc k) ?lns)"
      unfolding k(2) using k(1) by (rule context_after_eq)
    have b: "context_before m = take 2 (drop (k - 2) ?lns)" if "2 \<le> k"
      unfolding k(2) using that by (rule context_before_eq)
    have c: "context_before m = []" if "k = 0"
      unfolding k(2) using that by (simp add: context_before_first)
    have n: "line_number m = int k + 1" by (simp add: k(2) line_number_match_at)
    have "nat (int k + 1) = Suc k" by simp
    moreover have "nat (int k + 1) - 3 = k - 2" by simp
    ultimately show ?thesis using a b c k(1) by (simp add: n)
  qed
  ultimately show ?thesis using t r by auto
qed

theorem search_matches_context_witness:
  "fst (search_content demo_py demo_world demo_disk (ascii ''Q'') None True demo_server) =
     Inr \<lparr>query = ascii ''Q'',
          results =
            [\<lparr>result_file = ascii ''a.py'', result_file_type = ascii ''python'',
              matches =
                [\<lparr>line_number = 5, content = ascii ''x Q 5'',
                  context_before = map ascii [''l3'', ''l4''],
                  context_after = map ascii [''l6'', ''l7'']\<rparr>,
                 \<lparr>line_number = 12, content = ascii ''Q twelve'',
                  context_before = map ascii [''l10'', ''l11''],
                  context_after = map ascii [''l13'', ''l14'']\<rparr>]\<rparr>],
          total_files_searched = 3, files_with_matches = 1\<rparr> \<and>
   splitlines demo_text = demo_lines \<and>
   (\<exists>text. demo_disk (ascii ''a.py'') = Inr text \<and>
      list_all (\<lambda>k. 1 \<le> k \<and> k \<le> int (length (splitlines text))) [5, 12])"
proof -
  let ?run = "search_content demo_py demo_world demo_disk (ascii ''Q'') None True demo_server"
  let ?r = "\<lparr>result_file = ascii ''a.py'', result_file_type = ascii ''python'',
              matches =
                [\<lparr>line_number = 5, content = ascii ''x Q 5'',
                  context_before = map ascii [''l3'', ''l4''],
                  context_after = map ascii [''l6'', ''l7'']\<rparr>,
                 \<lparr>line_number = 12, content = ascii ''Q twelve'',
                  context_before = map ascii [''l10'', ''l11''],
                  context_after = map ascii [''l13'', ''l14'']\<rparr>]\<rparr>"
  let ?resp = "\<lparr>query = ascii ''Q'', results = [?r], total_files_searched = 3,
                files_with_matches = 1\<rparr>"
  have e: "fst ?run = Inr ?resp" by code_simp
  then have h: "?run = (Inr ?resp, snd ?run)" by (metis prod.collapse)
  have r: "?r \<in> set (results ?resp)" by simp
  have l: "splitlines demo_text = demo_lines" by code_simp
  show ?thesis
    using search_matches_context[OF h r] e l by simp blast
qed

text \<open>
  Claim C1, as stated, fails: a match on line 1 of a file of five lines has four lines
  after it and gets two lines of following context, not three.
\<close>

theorem search_context_after_counterexample:
  "fst (search_content demo_py demo_world demo_disk_short (ascii ''Q'') None True demo_server) =
     Inr \<lparr>query = ascii ''Q'',
          results =
            [\<lparr>result_file = ascii ''a.py'', result_file_type = ascii ''python'',
              matches =
                [\<lparr>line_number = 1, content = ascii ''Q'', context_before = [],
                  context_after = map ascii [''b'', ''c'']\<rparr>]\<rparr>],
          total_files_searched = 3, files_with_matches = 1\<rparr> \<and>
   demo_disk_short (ascii ''a.py'') = Inr demo_short \<and>
   splitlines demo_short = map ascii [''Q'', ''b'', ''c'', ''d'', ''e'']"
  by code_simp

text \<open>
  A match on line 2 carries no preceding context although line 1 precedes it: the guard of
  the source is \<^verbatim>\<open>i > 1\<close>.
\<close>

lemma second_line_context_before:
  "context_before (match_at (map ascii [''a'', ''Q'', ''c'']) 1) = []"
  by (simp add: match_at_def)

section \<open>Properties of the history query\<close>

subsection \<open>Rounding to a double\<close>








subsection \<open>The selected rows\<close>








end
